theory Spec2Isabelle
  imports Complex_Main
begin

section \<open>Data model of the forecasting notebook\<close>

text \<open>
  The notebook \<^verbatim>\<open>Scipy2024_Part_4_Forecasting_with_Deep_Learning.ipynb\<close> keeps a
  multivariate time series in the dataclass \<^verbatim>\<open>TimeSeries\<close> and converts to and from it.

  \<^item> A \<^verbatim>\<open>datetime\<close> is an integer count of microseconds; \<^verbatim>\<open>timedelta(hours=i)\<close> is
    \<open>i\<close> times 3600000000 of them. The bounded range of the Python type is not modelled.
  \<^item> A one-dimensional \<^verbatim>\<open>np.ndarray\<close> of floats is a list of reals: arithmetic is exact,
    rounding, overflow and non-finite entries are not modelled. The one non-finite value
    that is modelled is the \<^verbatim>\<open>nan\<close> that \<^verbatim>\<open>np.mean\<close> returns for an empty array.
  \<^item> A \<^verbatim>\<open>dict\<close> is an association list in insertion order with pairwise distinct keys.
    Assigning to a key that is present replaces the value and keeps the position;
    assigning to a new key appends it.
  \<^item> An exception is a value of \<open>error\<close>; a function that can raise returns
    \<open>error + 'a\<close>.
\<close>

type_synonym datetime = int

definition timedelta_hours :: "nat \<Rightarrow> int" where
  "timedelta_hours i = 3600000000 * int i"

type_synonym ndarray = "real list"

type_synonym 'v dict = "(string \<times> 'v) list"

datatype error = TypeError | IndexError | ValueError | RuntimeError

text \<open>\<^verbatim>\<open>d[k] = v\<close>\<close>

fun setitem :: "'v dict \<Rightarrow> string \<Rightarrow> 'v \<Rightarrow> 'v dict" where
  "setitem [] k v = [(k, v)]"
| "setitem ((k', v') # d) k v = (if k' = k then (k, v) # d else (k', v') # setitem d k v)"

text \<open>A run of assignments \<^verbatim>\<open>d[k] = v\<close>, in order.\<close>

definition setitems :: "(string \<times> 'v) list \<Rightarrow> 'v dict \<Rightarrow> 'v dict" where
  "setitems kvs d = fold (\<lambda>(k, v) d. setitem d k v) kvs d"

text \<open>
  \<^verbatim>\<open>d.keys()\<close>, and the lookup \<^verbatim>\<open>d[k]\<close>, which is \<open>None\<close> where Python raises
  \<^verbatim>\<open>KeyError\<close> for an absent key.
\<close>

definition keys :: "'v dict \<Rightarrow> string list" where
  "keys d = map fst d"

definition getitem :: "'v dict \<Rightarrow> string \<Rightarrow> 'v option" where
  "getitem d k = map_of d k"

text \<open>
  The dataclass. \<^verbatim>\<open>timestamps\<close> is \<open>None\<close> when the Python attribute is \<^verbatim>\<open>None\<close>, which
  \<^verbatim>\<open>gluon_ds_to_timeseries\<close> stores for an empty dataset.
\<close>

record TimeSeries =
  timestamps :: "datetime list option"
  features :: "ndarray dict"

text \<open>
  The constructor that \<^verbatim>\<open>@dataclass\<close> generates stores its two arguments. It has no
  \<^verbatim>\<open>__post_init__\<close> and raises nothing.
\<close>

definition TimeSeries_init :: "datetime list option \<Rightarrow> ndarray dict \<Rightarrow> TimeSeries" where
  "TimeSeries_init ts fs = \<lparr>timestamps = ts, features = fs\<rparr>"

text \<open>
  The invariant of the docstring: each feature value contains \<open>n\<close> elements corresponding
  to the \<open>n\<close> timestamps.
\<close>

definition aligned :: "TimeSeries \<Rightarrow> bool" where
  "aligned c = (case timestamps c of
       None \<Rightarrow> False
     | Some ts \<Rightarrow> list_all (\<lambda>(name, feature). length feature = length ts) (features c))"

text \<open>Timestamps strictly increasing, and a mapping's keys pairwise distinct.\<close>

definition strictly_increasing :: "datetime list \<Rightarrow> bool" where
  "strictly_increasing ts = sorted_wrt (<) ts"

definition wf_dict :: "'v dict \<Rightarrow> bool" where
  "wf_dict d = distinct (keys d)"

section \<open>Conversion from a Gluon dataset\<close>

text \<open>
  One entry of the dataset: \<open>start\<close> is \<^verbatim>\<open>x["start"].start_time\<close>, \<open>target\<close> is
  \<^verbatim>\<open>x["target"]\<close>, \<open>item_id\<close> is \<^verbatim>\<open>x["item_id"]\<close>.
\<close>

record gluon_entry =
  start :: datetime
  target :: ndarray
  item_id :: string

text \<open>The body of the \<^verbatim>\<open>for x in gluon_ds\<close> loop, on the two local variables.\<close>

fun gluon_ds_loop ::
  "gluon_entry list \<Rightarrow> datetime list option \<Rightarrow> ndarray dict \<Rightarrow> datetime list option \<times> ndarray dict"
where
  "gluon_ds_loop [] ts fs = (ts, fs)"
| "gluon_ds_loop (x # xs) ts fs =
     gluon_ds_loop xs
       (case ts of
          None \<Rightarrow> Some (map (\<lambda>i. start x + timedelta_hours i) [0..<length (target x)])
        | Some t \<Rightarrow> Some t)
       (setitem fs (item_id x) (target x))"

definition gluon_ds_to_timeseries :: "gluon_entry list \<Rightarrow> TimeSeries" where
  "gluon_ds_to_timeseries gluon_ds =
     (case gluon_ds_loop gluon_ds None [] of (ts, fs) \<Rightarrow> TimeSeries_init ts fs)"

section \<open>The train view\<close>

text \<open>
  \<^verbatim>\<open>a[mask]\<close> with a boolean array: numpy raises \<^verbatim>\<open>IndexError\<close> when the mask's length
  is not the array's, and otherwise keeps the elements at the positions where the mask
  is true.
\<close>

definition bool_index :: "'a list \<Rightarrow> bool list \<Rightarrow> error + 'a list" where
  "bool_index a msk =
     (if length msk \<noteq> length a then Inl IndexError
      else Inr (map fst (filter snd (zip a msk))))"

text \<open>
  The dict comprehension \<^verbatim>\<open>{ name:feature[mask] for name, feature in ... }\<close>: entries are
  visited in order and stored into the new mapping; the first failing index aborts.
\<close>

fun mask_features :: "ndarray dict \<Rightarrow> bool list \<Rightarrow> ndarray dict \<Rightarrow> error + ndarray dict" where
  "mask_features [] msk acc = Inr acc"
| "mask_features ((name, feature) # rest) msk acc =
     (case bool_index feature msk of
        Inl e \<Rightarrow> Inl e
      | Inr f \<Rightarrow> mask_features rest msk (setitem acc name f))"

text \<open>
  \<^verbatim>\<open>np.asarray(dataset.timestamps) < date\<close> compares elementwise; on \<^verbatim>\<open>None\<close> the comparison
  with a datetime raises \<^verbatim>\<open>TypeError\<close>.
\<close>

definition extract_train_dataset :: "TimeSeries \<Rightarrow> datetime \<Rightarrow> error + TimeSeries" where
  "extract_train_dataset dataset date =
     (case timestamps dataset of
        None \<Rightarrow> Inl TypeError
      | Some ts \<Rightarrow>
          (let msk = map (\<lambda>t. t < date) ts in
           case bool_index ts msk of
             Inl e \<Rightarrow> Inl e
           | Inr ts' \<Rightarrow>
               (case mask_features (features dataset) msk [] of
                  Inl e \<Rightarrow> Inl e
                | Inr fs' \<Rightarrow> Inr (TimeSeries_init (Some ts') fs'))))"

text \<open>
  Modelled from the spec: the held-out view of \<^verbatim>\<open>split\<close>. The notebook only extracts the
  train view; the spec defines the held-out view as the same slice with the mask
  \<^verbatim>\<open>timestamp >= cutoff_time\<close>.
\<close>

definition held_out_view :: "TimeSeries \<Rightarrow> datetime \<Rightarrow> error + TimeSeries" where
  "held_out_view dataset date =
     (case timestamps dataset of
        None \<Rightarrow> Inl TypeError
      | Some ts \<Rightarrow>
          (let msk = map (\<lambda>t. t \<ge> date) ts in
           case bool_index ts msk of
             Inl e \<Rightarrow> Inl e
           | Inr ts' \<Rightarrow>
               (case mask_features (features dataset) msk [] of
                  Inl e \<Rightarrow> Inl e
                | Inr fs' \<Rightarrow> Inr (TimeSeries_init (Some ts') fs'))))"

section \<open>Conversion from the TimesFM forecast array\<close>

text \<open>
  A two-dimensional array of shape \<open>(length (rows a), ncols a)\<close>; it is rectangular when
  every row has \<open>ncols a\<close> elements. Iterating over it yields its rows.
\<close>

record ndarray2 =
  ncols :: nat
  rows :: "ndarray list"


text \<open>
  \<^verbatim>\<open>timesfm_predictions_to_timeseries\<close> reads the globals \<^verbatim>\<open>end_of_train\<close> and
  \<^verbatim>\<open>train_dataset\<close>; they are the first two arguments here. \<open>features\<close> is \<open>None\<close> when
  the argument is omitted. This is the function on the mapping's content; it covers every
  call where \<open>features\<close> is not the very mapping object \<^verbatim>\<open>train_dataset.features\<close>.
\<close>

definition timesfm_loop ::
  "string \<Rightarrow> (string \<times> ndarray) list \<Rightarrow> ndarray dict \<Rightarrow> ndarray dict" where
  "timesfm_loop prefix pairs fs =
     fold (\<lambda>(name, prediction) fs. setitem fs (prefix @ name) prediction) pairs fs"

definition timesfm_predictions_to_timeseries ::
  "datetime \<Rightarrow> TimeSeries \<Rightarrow> ndarray2 \<Rightarrow> string \<Rightarrow> ndarray dict option \<Rightarrow> TimeSeries" where
  "timesfm_predictions_to_timeseries end_of_train train_dataset timesfm_predictions prefix features_arg =
     (let fs0 = (case features_arg of None \<Rightarrow> [] | Some f \<Rightarrow> f);
          ts = map (\<lambda>i. end_of_train + timedelta_hours i) [0..<ncols timesfm_predictions];
          fs1 = timesfm_loop prefix
                  (zip (keys (features train_dataset)) (rows timesfm_predictions)) fs0
      in TimeSeries_init (Some ts) fs1)"

section \<open>Mapping objects\<close>

text \<open>
  Python passes a mapping by reference, and \<^verbatim>\<open>timesfm_predictions_to_timeseries\<close> assigns
  into the mapping it is given. Where the identity of the mapping matters, mappings live
  in a store: a reference is an index into the list of all mapping objects, \<^verbatim>\<open>{}\<close>
  appends a new empty one, and an assignment updates the object in place. Arrays stay
  values: no code of the notebook writes into an array. A container then holds its
  timestamps and the reference of its \<^verbatim>\<open>features\<close>.
\<close>

type_synonym ref = nat

type_synonym heap = "ndarray dict list"

record TimeSeries_obj =
  obj_timestamps :: "datetime list option"
  obj_features :: ref

definition new_dict :: "heap \<Rightarrow> ref \<times> heap" where
  "new_dict h = (length h, h @ [[]])"

definition setitem_at :: "ref \<Rightarrow> string \<Rightarrow> ndarray \<Rightarrow> heap \<Rightarrow> heap" where
  "setitem_at r k v h = h[r := setitem (h ! r) k v]"

text \<open>
  The loop \<^verbatim>\<open>for name, prediction in zip(train_dataset.features.keys(), timesfm_predictions)\<close>
  on the store. \<open>tr\<close> is the mapping of \<^verbatim>\<open>train_dataset\<close>, \<open>n0\<close> its size when the
  iteration started, \<open>r\<close> the mapping assigned to. \<^verbatim>\<open>zip\<close> asks the key view first; the
  view raises \<^verbatim>\<open>RuntimeError\<close> when its mapping has changed size, before it looks for
  a next key, and assignments that keep the size leave the keys and their order as they
  were.
\<close>

fun timesfm_loop_obj ::
  "ref \<Rightarrow> nat \<Rightarrow> ref \<Rightarrow> string \<Rightarrow> string list \<Rightarrow> ndarray list \<Rightarrow> heap \<Rightarrow> error + heap"
where
  "timesfm_loop_obj tr n0 r prefix [] ps h =
     (if length (h ! tr) \<noteq> n0 then Inl RuntimeError else Inr h)"
| "timesfm_loop_obj tr n0 r prefix (name # ks) [] h =
     (if length (h ! tr) \<noteq> n0 then Inl RuntimeError else Inr h)"
| "timesfm_loop_obj tr n0 r prefix (name # ks) (prediction # ps) h =
     (if length (h ! tr) \<noteq> n0 then Inl RuntimeError
      else timesfm_loop_obj tr n0 r prefix ks ps (setitem_at r (prefix @ name) prediction h))"

definition timesfm_predictions_to_timeseries_obj ::
  "datetime \<Rightarrow> TimeSeries_obj \<Rightarrow> ndarray2 \<Rightarrow> string \<Rightarrow> ref option \<Rightarrow> heap
     \<Rightarrow> error + (TimeSeries_obj \<times> heap)" where
  "timesfm_predictions_to_timeseries_obj end_of_train train_dataset timesfm_predictions prefix
       features_arg h =
     (case (case features_arg of None \<Rightarrow> new_dict h | Some r \<Rightarrow> (r, h)) of
        (r, h1) \<Rightarrow>
          (let ts = map (\<lambda>i. end_of_train + timedelta_hours i) [0..<ncols timesfm_predictions];
               tr = obj_features train_dataset
           in case timesfm_loop_obj tr (length (h1 ! tr)) r prefix (keys (h1 ! tr))
                     (rows timesfm_predictions) h1 of
                Inl e \<Rightarrow> Inl e
              | Inr h2 \<Rightarrow> Inr (\<lparr>obj_timestamps = Some ts, obj_features = r\<rparr>, h2)))"




section \<open>The error metric\<close>

text \<open>
  \<^verbatim>\<open>np.sqrt(np.mean((ot_prediction-ot_ground_truth)**2))\<close>. Subtraction of one-dimensional
  arrays broadcasts: equal lengths subtract elementwise, an array of length one is
  stretched to the other's length, and any other pair of lengths raises \<^verbatim>\<open>ValueError\<close>.
  The mean of an empty array is \<^verbatim>\<open>nan\<close>.
\<close>

datatype number = NaN | Num real

definition np_sub :: "ndarray \<Rightarrow> ndarray \<Rightarrow> error + ndarray" where
  "np_sub a b =
     (if length a = length b then Inr (map2 (-) a b)
      else if length a = 1 then Inr (map (\<lambda>y. hd a - y) b)
      else if length b = 1 then Inr (map (\<lambda>x. x - hd b) a)
      else Inl ValueError)"

definition np_square :: "ndarray \<Rightarrow> ndarray" where
  "np_square a = map (\<lambda>x. x\<^sup>2) a"

definition np_mean :: "ndarray \<Rightarrow> number" where
  "np_mean a = (if a = [] then NaN else Num (sum_list a / real (length a)))"

fun np_sqrt :: "number \<Rightarrow> number" where
  "np_sqrt NaN = NaN"
| "np_sqrt (Num x) = (if x < 0 then NaN else Num (sqrt x))"

definition rmse :: "ndarray \<Rightarrow> ndarray \<Rightarrow> error + number" where
  "rmse ot_prediction ot_ground_truth =
     (case np_sub ot_prediction ot_ground_truth of
        Inl e \<Rightarrow> Inl e
      | Inr d \<Rightarrow> Inr (np_sqrt (np_mean (np_square d))))"

section \<open>Mappings\<close>


lemma map_of_setitem: "map_of (setitem d k v) = (map_of d)(k \<mapsto> v)"
  by (induction d) (auto simp: fun_eq_iff)

lemma keys_setitem:
  "keys (setitem d k v) = (if k \<in> set (keys d) then keys d else keys d @ [k])"
  by (induction d) (force simp: keys_def)+

lemma keys_Nil: "keys [] = []"
  by (simp add: keys_def)

lemma setitem_absent: "k \<notin> set (keys d) \<Longrightarrow> setitem d k v = d @ [(k, v)]"
  by (induction d) (auto simp: keys_def)


lemma setitems_Nil: "setitems [] d = d"
  by (simp add: setitems_def)

lemma setitems_Cons: "setitems ((k, v) # kvs) d = setitems kvs (setitem d k v)"
  by (simp add: setitems_def)

lemma setitems_append: "setitems (xs @ ys) d = setitems ys (setitems xs d)"
  by (simp add: setitems_def)

lemma map_of_setitems: "map_of (setitems kvs d) = map_of d ++ map_of (rev kvs)"
proof (induction kvs arbitrary: d)
  case Nil
  then show ?case by (simp add: setitems_Nil)
next
  case (Cons kv kvs)
  obtain k v where kv: "kv = (k, v)" by (cases kv)
  have "map_of (setitems (kv # kvs) d) = map_of (setitem d k v) ++ map_of (rev kvs)"
    using Cons.IH [of "setitem d k v"] by (simp add: kv setitems_Cons)
  also have "\<dots> = map_of d ++ map_of (rev (kv # kvs))"
    by (simp add: kv map_of_setitem fun_eq_iff map_add_def split: option.splits)
  finally show ?case .
qed

lemma set_keys_setitems: "set (keys (setitems kvs d)) = set (keys d) \<union> fst ` set kvs"
proof (induction kvs arbitrary: d)
  case Nil
  then show ?case by (simp add: setitems_Nil)
next
  case (Cons kv kvs)
  obtain k v where kv: "kv = (k, v)" by (cases kv)
  show ?case using Cons.IH [of "setitem d k v"]
    by (auto simp: kv setitems_Cons keys_setitem split: if_splits)
qed

lemma wf_dict_setitem: "wf_dict d \<Longrightarrow> wf_dict (setitem d k v)"
  by (simp add: wf_dict_def keys_setitem)

lemma wf_dict_setitems: "wf_dict d \<Longrightarrow> wf_dict (setitems kvs d)"
proof (induction kvs arbitrary: d)
  case Nil
  then show ?case by (simp add: setitems_Nil)
next
  case (Cons kv kvs)
  obtain k v where kv: "kv = (k, v)" by (cases kv)
  show ?case using Cons.IH [of "setitem d k v"] Cons.prems
    by (simp add: kv setitems_Cons wf_dict_setitem)
qed

lemma setitems_fresh:
  "distinct (map fst kvs) \<Longrightarrow> fst ` set kvs \<inter> set (keys d) = {} \<Longrightarrow> setitems kvs d = d @ kvs"
proof (induction kvs arbitrary: d)
  case Nil
  then show ?case by (simp add: setitems_Nil)
next
  case (Cons kv kvs)
  obtain k v where kv: "kv = (k, v)" by (cases kv)
  from Cons.prems have k: "k \<notin> set (keys d)" by (auto simp: kv)
  have d: "distinct (map fst kvs)" using Cons.prems by simp
  have "fst ` set kvs \<inter> set (keys (d @ [(k, v)])) = {}"
    using Cons.prems by (auto simp: kv keys_def)
  from Cons.IH [OF d this] show ?case
    by (simp add: kv setitems_Cons setitem_absent [OF k])
qed


lemma wf_dict_single_entry:
  "wf_dict d \<Longrightarrow> k \<in> set (keys d) \<Longrightarrow> length (filter (\<lambda>(k', v). k' = k) d) = 1"
proof (induction d)
  case Nil
  then show ?case by (simp add: keys_def)
next
  case (Cons kv d)
  obtain k0 v0 where kv: "kv = (k0, v0)" by (cases kv)
  show ?case
  proof (cases "k0 = k")
    case True
    then have "k \<notin> fst ` set d" using Cons.prems by (auto simp: wf_dict_def keys_def kv)
    then have "filter (\<lambda>(k', v). k' = k) d = []"
      by (force simp: filter_empty_conv)
    with True show ?thesis by (simp add: kv)
  next
    case False
    then show ?thesis using Cons by (auto simp: kv wf_dict_def keys_def)
  qed
qed

section \<open>The conversion from a Gluon dataset\<close>

lemma gluon_ds_loop_eq:
  "gluon_ds_loop ds ts fs =
     (case ts of
        Some t \<Rightarrow> Some t
      | None \<Rightarrow> (case ds of
           [] \<Rightarrow> None
         | x # _ \<Rightarrow> Some (map (\<lambda>i. start x + timedelta_hours i) [0..<length (target x)])),
      setitems (map (\<lambda>x. (item_id x, target x)) ds) fs)"
proof (induction ds arbitrary: ts fs)
  case Nil
  then show ?case by (simp add: setitems_Nil split: option.splits)
next
  case (Cons x xs)
  show ?case
    by (simp add: Cons.IH setitems_Cons split: option.splits)
qed

lemma gluon_features:
  "features (gluon_ds_to_timeseries ds) = setitems (map (\<lambda>x. (item_id x, target x)) ds) []"
  by (simp add: gluon_ds_to_timeseries_def gluon_ds_loop_eq TimeSeries_init_def)

lemma gluon_timestamps:
  "timestamps (gluon_ds_to_timeseries ds) =
     (case ds of [] \<Rightarrow> None
      | x # _ \<Rightarrow> Some (map (\<lambda>i. start x + timedelta_hours i) [0..<length (target x)]))"
  by (simp add: gluon_ds_to_timeseries_def gluon_ds_loop_eq TimeSeries_init_def)

lemma map_of_rev_last:
  "x \<in> set ds \<Longrightarrow>
   map_of (rev (map (\<lambda>x. (f x, g x)) ds)) (f x) = Some (g (last (filter (\<lambda>y. f y = f x) ds)))"
proof (induction ds rule: rev_induct)
  case Nil
  then show ?case by simp
next
  case (snoc y ys)
  show ?case
  proof (cases "f y = f x")
    case True
    then show ?thesis by simp
  next
    case False
    then have "x \<in> set ys" using snoc.prems by auto
    from snoc.IH [OF this] False show ?thesis by simp
  qed
qed


lemma gluon_keys: "set (keys (features (gluon_ds_to_timeseries ds))) = item_id ` set ds"
  by (simp add: gluon_features set_keys_setitems keys_Nil image_image)

lemma gluon_wf: "wf_dict (features (gluon_ds_to_timeseries ds))"
  unfolding gluon_features by (rule wf_dict_setitems) (simp add: wf_dict_def keys_def)

text \<open>
  C5, as the code has it: the timestamps are computed from the first record alone, one
  hour per element of its value sequence, whatever the later records hold (an empty
  dataset leaves them \<^verbatim>\<open>None\<close>); the identifiers of the container are those of the
  records, each once; and when the records' identifiers are pairwise distinct the
  container has exactly one series per record, in order, keyed by its identifier.
\<close>

theorem gluon_first_record:
  "timestamps (gluon_ds_to_timeseries []) = None \<and>
   timestamps (gluon_ds_to_timeseries (x # xs)) =
     Some (map (\<lambda>i. start x + timedelta_hours i) [0..<length (target x)]) \<and>
   set (keys (features (gluon_ds_to_timeseries ds))) = item_id ` set ds \<and>
   wf_dict (features (gluon_ds_to_timeseries ds)) \<and>
   (distinct (map item_id ds) \<longrightarrow>
      features (gluon_ds_to_timeseries ds) = map (\<lambda>r. (item_id r, target r)) ds)"
proof -
  have d: "features (gluon_ds_to_timeseries ds) = map (\<lambda>r. (item_id r, target r)) ds"
    if "distinct (map item_id ds)"
    using setitems_fresh [of "map (\<lambda>r. (item_id r, target r)) ds" "[]"] that
    by (simp add: gluon_features keys_def comp_def)
  show ?thesis
    using gluon_keys [of ds] gluon_wf [of ds] d by (simp add: gluon_timestamps)
qed

text \<open>
  Two records with different start times and lengths: the timestamps are those of the
  first, and both series are stored as they are.
\<close>

theorem gluon_first_record_witness:
  "timestamps (gluon_ds_to_timeseries
      [\<lparr>start = 0, target = [1, 2], item_id = ''HUFL''\<rparr>,
       \<lparr>start = 5, target = [3, 4, 5], item_id = ''OT''\<rparr>]) = Some [0, 3600000000] \<and>
   features (gluon_ds_to_timeseries
      [\<lparr>start = 0, target = [1, 2], item_id = ''HUFL''\<rparr>,
       \<lparr>start = 5, target = [3, 4, 5], item_id = ''OT''\<rparr>]) =
     [(''HUFL'', [1, 2]), (''OT'', [3, 4, 5])]"
  using gluon_first_record
    [of "\<lparr>start = 0, target = [1, 2], item_id = ''HUFL''\<rparr>"
        "[\<lparr>start = 5, target = [3, 4, 5], item_id = ''OT''\<rparr>]"
        "[\<lparr>start = 0, target = [1, 2], item_id = ''HUFL''\<rparr>,
          \<lparr>start = 5, target = [3, 4, 5], item_id = ''OT''\<rparr>]"]
  by (simp add: timedelta_hours_def)

text \<open>
  C5 as stated fails where two records share an identifier: two records, one series.
\<close>

theorem gluon_duplicate_id_counterexample:
  "length [\<lparr>start = 0, target = [1, 2], item_id = ''OT''\<rparr>,
           \<lparr>start = 0, target = [3, 4], item_id = ''OT''\<rparr>] = 2 \<and>
   features (gluon_ds_to_timeseries
      [\<lparr>start = 0, target = [1, 2], item_id = ''OT''\<rparr>,
       \<lparr>start = 0, target = [3, 4], item_id = ''OT''\<rparr>]) = [(''OT'', [3, 4])]"
  by (simp add: gluon_ds_to_timeseries_def TimeSeries_init_def)

text \<open>
  C10: the conversion is a total function, so it returns a container for every dataset;
  under the identifier of any record the container holds the value sequence of the last
  record with that identifier, and it has exactly one series for it.
\<close>

theorem gluon_last_wins:
  assumes "x \<in> set ds"
  shows "getitem (features (gluon_ds_to_timeseries ds)) (item_id x) =
           Some (target (last (filter (\<lambda>y. item_id y = item_id x) ds))) \<and>
         length (filter (\<lambda>(k, v). k = item_id x) (features (gluon_ds_to_timeseries ds))) = 1"
proof -
  have "getitem (features (gluon_ds_to_timeseries ds)) (item_id x) =
          map_of (rev (map (\<lambda>x. (item_id x, target x)) ds)) (item_id x)"
    by (simp add: getitem_def gluon_features map_of_setitems)
  then have g: "getitem (features (gluon_ds_to_timeseries ds)) (item_id x) =
           Some (target (last (filter (\<lambda>y. item_id y = item_id x) ds)))"
    using map_of_rev_last [OF assms, of item_id target] by simp
  have k: "item_id x \<in> set (keys (features (gluon_ds_to_timeseries ds)))"
    using assms by (simp add: gluon_keys)
  from g wf_dict_single_entry [OF gluon_wf k] show ?thesis
    by simp
qed

theorem gluon_last_wins_witness:
  "getitem (features (gluon_ds_to_timeseries
      [\<lparr>start = 0, target = [1, 2], item_id = ''OT''\<rparr>,
       \<lparr>start = 0, target = [9, 9], item_id = ''HUFL''\<rparr>,
       \<lparr>start = 0, target = [3, 4], item_id = ''OT''\<rparr>])) ''OT'' = Some [3, 4] \<and>
   length (filter (\<lambda>(k, v). k = ''OT'') (features (gluon_ds_to_timeseries
      [\<lparr>start = 0, target = [1, 2], item_id = ''OT''\<rparr>,
       \<lparr>start = 0, target = [9, 9], item_id = ''HUFL''\<rparr>,
       \<lparr>start = 0, target = [3, 4], item_id = ''OT''\<rparr>]))) = 1"
  using gluon_last_wins
    [of "\<lparr>start = 0, target = [3, 4], item_id = ''OT''\<rparr>"
        "[\<lparr>start = 0, target = [1, 2], item_id = ''OT''\<rparr>,
          \<lparr>start = 0, target = [9, 9], item_id = ''HUFL''\<rparr>,
          \<lparr>start = 0, target = [3, 4], item_id = ''OT''\<rparr>]"]
  by simp

section \<open>The train view and the held-out view\<close>



lemma bool_index_zip:
  "length a = length ts \<Longrightarrow>
   map fst (filter snd (zip a (map P ts))) = map fst (filter (\<lambda>(v, t). P t) (zip a ts))"
  by (induction a ts rule: list_induct2) auto

lemma bool_index_self:
  "map fst (filter snd (zip ts (map P ts))) = filter P ts"
  by (induction ts) auto

lemma mask_features_ok:
  "list_all (\<lambda>(name, feature). length feature = length msk) d \<Longrightarrow>
   mask_features d msk acc =
     Inr (setitems (map (\<lambda>(name, feature). (name, map fst (filter snd (zip feature msk)))) d) acc)"
proof (induction d arbitrary: acc)
  case Nil
  then show ?case by (simp add: setitems_Nil)
next
  case (Cons nf d)
  obtain name feature where nf: "nf = (name, feature)" by (cases nf)
  from Cons.prems have l: "length feature = length msk" and r: "list_all (\<lambda>(name, feature). length feature = length msk) d"
    by (simp_all add: nf)
  show ?case
    using l Cons.IH [OF r] by (simp add: nf bool_index_def setitems_Cons)
qed


lemma sorted_mask_take:
  "sorted_wrt (<) (ts::int list) \<Longrightarrow> length f = length ts \<Longrightarrow>
   map fst (filter (\<lambda>(v, t). t < date) (zip f ts)) = take (length (filter (\<lambda>t. t < date) ts)) f"
proof (induction f ts rule: list_induct2')
  case (4 x xs t ts)
  show ?case
  proof (cases "t < date")
    case True
    with 4 show ?thesis by simp
  next
    case False
    with 4 have "\<forall>u\<in>set ts. \<not> u < date" by auto
    then have a: "filter (\<lambda>t. t < date) ts = []" by (simp add: filter_empty_conv)
    have "\<forall>p\<in>set (zip xs ts). \<not> snd p < date"
      using \<open>\<forall>u\<in>set ts. \<not> u < date\<close> by (auto dest: set_zip_rightD)
    then have "filter (\<lambda>(v, t). t < date) (zip xs ts) = []"
      by (auto simp: filter_empty_conv)
    with a False show ?thesis by simp
  qed
qed simp_all

lemma sorted_mask_drop:
  "sorted_wrt (<) (ts::int list) \<Longrightarrow> length f = length ts \<Longrightarrow>
   map fst (filter (\<lambda>(v, t). date \<le> t) (zip f ts)) = drop (length (filter (\<lambda>t. t < date) ts)) f"
proof (induction f ts rule: list_induct2')
  case (4 x xs t ts)
  show ?case
  proof (cases "t < date")
    case True
    with 4 show ?thesis by simp
  next
    case False
    with 4 have "\<forall>u\<in>set ts. \<not> u < date" by auto
    then have a: "filter (\<lambda>t. t < date) ts = []" by (simp add: filter_empty_conv)
    have "\<forall>p\<in>set (zip xs ts). date \<le> snd p"
      using \<open>\<forall>u\<in>set ts. \<not> u < date\<close> by (fastforce dest: set_zip_rightD)
    then have "filter (\<lambda>(v, t). date \<le> t) (zip xs ts) = zip xs ts"
      by (auto simp: filter_id_conv)
    with a False 4 show ?thesis by simp
  qed
qed simp_all

lemma sorted_split:
  "sorted_wrt (<) (ts::int list) \<Longrightarrow>
   filter (\<lambda>t. t < date) ts @ filter (\<lambda>t. date \<le> t) ts = ts"
proof (induction ts)
  case Nil then show ?case by simp
next
  case (Cons t ts)
  show ?case
  proof (cases "t < date")
    case True
    with Cons show ?thesis by simp
  next
    case False
    with Cons.prems have n: "\<forall>u\<in>set ts. \<not> u < date" by auto
    then have "filter (\<lambda>t. t < date) ts = []" by (simp add: filter_empty_conv)
    moreover have "filter (\<lambda>t. date \<le> t) ts = ts" using n by (auto simp: filter_id_conv)
    ultimately show ?thesis using False by simp
  qed
qed



lemma map_fst_relabel: "map fst (map (\<lambda>(name, feature). (name, h feature)) d) = map fst d"
  by (induction d) auto

lemma relabel_cong:
  "(\<And>n f. (n, f) \<in> set d \<Longrightarrow> g f = h f) \<Longrightarrow>
   map (\<lambda>(name, feature). (name, g feature)) d = map (\<lambda>(name, feature). (name, h feature)) d"
  by (induction d) auto

lemma setitems_relabel:
  "wf_dict d \<Longrightarrow>
   setitems (map (\<lambda>(name, feature). (name, h feature)) d) [] =
     map (\<lambda>(name, feature). (name, h feature)) d"
proof -
  assume "wf_dict d"
  then have "distinct (map fst (map (\<lambda>(name, feature). (name, h feature)) d))"
    by (simp only: map_fst_relabel wf_dict_def keys_def)
  from setitems_fresh [OF this, of "[]"] show ?thesis
    by (simp add: keys_def)
qed


lemma extract_train_dataset_ok:
  assumes "timestamps c = Some ts"
    and "list_all (\<lambda>(name, feature). length feature = length ts) (features c)"
  shows "extract_train_dataset c date =
     Inr (TimeSeries_init (Some (filter (\<lambda>t. t < date) ts))
       (setitems (map (\<lambda>(name, feature).
           (name, map fst (filter snd (zip feature (map (\<lambda>t. t < date) ts))))) (features c)) []))"
proof -
  have "list_all (\<lambda>(name, feature). length feature = length (map (\<lambda>t. t < date) ts)) (features c)"
    using assms(2) by simp
  from mask_features_ok [OF this, of "[]"] show ?thesis
    by (simp add: extract_train_dataset_def assms(1) bool_index_def bool_index_self)
qed

lemma held_out_view_ok:
  assumes "timestamps c = Some ts"
    and "list_all (\<lambda>(name, feature). length feature = length ts) (features c)"
  shows "held_out_view c date =
     Inr (TimeSeries_init (Some (filter (\<lambda>t. date \<le> t) ts))
       (setitems (map (\<lambda>(name, feature).
           (name, map fst (filter snd (zip feature (map (\<lambda>t. date \<le> t) ts))))) (features c)) []))"
proof -
  have "list_all (\<lambda>(name, feature). length feature = length (map (\<lambda>t. date \<le> t) ts)) (features c)"
    using assms(2) by simp
  from mask_features_ok [OF this, of "[]"] show ?thesis
    by (simp add: held_out_view_def assms(1) bool_index_def bool_index_self)
qed







text \<open>
  C2: for a container with strictly increasing timestamps, series as long as the
  timestamps and distinct identifiers, and for every cutoff, both views exist. The train
  view holds the timestamps before the cutoff and of each series the values at these
  positions, the held-out view holds the others; as the timestamps increase, these are
  a prefix and the matching suffix of every sequence. The two timestamp sequences have
  no element in common, their lengths add up to the original length and their
  concatenation is the original sequence.
\<close>

theorem split_partition:
  assumes "timestamps c = Some ts" and "strictly_increasing ts"
    and "aligned c" and "wf_dict (features c)"
  shows "\<exists>train held.
     extract_train_dataset c date = Inr train \<and> held_out_view c date = Inr held \<and>
     timestamps train = Some (filter (\<lambda>t. t < date) ts) \<and>
     timestamps held = Some (filter (\<lambda>t. date \<le> t) ts) \<and>
     features train =
       map (\<lambda>(name, feature). (name, map fst (filter (\<lambda>(v, t). t < date) (zip feature ts))))
         (features c) \<and>
     features held =
       map (\<lambda>(name, feature). (name, map fst (filter (\<lambda>(v, t). date \<le> t) (zip feature ts))))
         (features c) \<and>
     features train =
       map (\<lambda>(name, feature). (name, take (length (filter (\<lambda>t. t < date) ts)) feature))
         (features c) \<and>
     features held =
       map (\<lambda>(name, feature). (name, drop (length (filter (\<lambda>t. t < date) ts)) feature))
         (features c) \<and>
     set (filter (\<lambda>t. t < date) ts) \<inter> set (filter (\<lambda>t. date \<le> t) ts) = {} \<and>
     length (filter (\<lambda>t. t < date) ts) + length (filter (\<lambda>t. date \<le> t) ts) = length ts \<and>
     filter (\<lambda>t. t < date) ts @ filter (\<lambda>t. date \<le> t) ts = ts"
proof -
  let ?d = "features c"
  let ?k = "length (filter (\<lambda>t. t < date) ts)"
  have al: "list_all (\<lambda>(name, feature). length feature = length ts) ?d"
    using assms(1,3) by (simp add: aligned_def)
  have len: "length f = length ts" if "(n, f) \<in> set ?d" for n f
    using al that by (auto simp: list_all_iff)
  have so: "sorted_wrt (<) ts"
    using assms(2) by (simp add: strictly_increasing_def)
  define train where "train = TimeSeries_init (Some (filter (\<lambda>t. t < date) ts))
       (map (\<lambda>(name, feature).
           (name, map fst (filter snd (zip feature (map (\<lambda>t. t < date) ts))))) ?d)"
  define held where "held = TimeSeries_init (Some (filter (\<lambda>t. date \<le> t) ts))
       (map (\<lambda>(name, feature).
           (name, map fst (filter snd (zip feature (map (\<lambda>t. date \<le> t) ts))))) ?d)"
  have e: "extract_train_dataset c date = Inr train"
    using extract_train_dataset_ok [OF assms(1) al, of date]
    by (simp add: train_def setitems_relabel [OF assms(4)])
  have h: "held_out_view c date = Inr held"
    using held_out_view_ok [OF assms(1) al, of date]
    by (simp add: held_def setitems_relabel [OF assms(4)])
  have tt: "timestamps train = Some (filter (\<lambda>t. t < date) ts)"
    and th: "timestamps held = Some (filter (\<lambda>t. date \<le> t) ts)"
    by (simp_all add: train_def held_def TimeSeries_init_def)
  have ft: "features train =
       map (\<lambda>(name, feature). (name, map fst (filter (\<lambda>(v, t). t < date) (zip feature ts)))) ?d"
  proof -
    have "features train = map (\<lambda>(name, feature).
           (name, map fst (filter snd (zip feature (map (\<lambda>t. t < date) ts))))) ?d"
      by (simp add: train_def TimeSeries_init_def)
    also have "\<dots> = map (\<lambda>(name, feature).
           (name, map fst (filter (\<lambda>(v, t). t < date) (zip feature ts)))) ?d"
      by (rule relabel_cong) (simp add: bool_index_zip [OF len])
    finally show ?thesis .
  qed
  have fh: "features held =
       map (\<lambda>(name, feature). (name, map fst (filter (\<lambda>(v, t). date \<le> t) (zip feature ts)))) ?d"
  proof -
    have "features held = map (\<lambda>(name, feature).
           (name, map fst (filter snd (zip feature (map (\<lambda>t. date \<le> t) ts))))) ?d"
      by (simp add: held_def TimeSeries_init_def)
    also have "\<dots> = map (\<lambda>(name, feature).
           (name, map fst (filter (\<lambda>(v, t). date \<le> t) (zip feature ts)))) ?d"
      by (rule relabel_cong) (simp add: bool_index_zip [OF len])
    finally show ?thesis .
  qed
  have ft2: "features train = map (\<lambda>(name, feature). (name, take ?k feature)) ?d"
    unfolding ft by (rule relabel_cong) (simp add: sorted_mask_take [OF so len])
  have fh2: "features held = map (\<lambda>(name, feature). (name, drop ?k feature)) ?d"
    unfolding fh by (rule relabel_cong) (simp add: sorted_mask_drop [OF so len])
  have dj: "set (filter (\<lambda>t. t < date) ts) \<inter> set (filter (\<lambda>t. date \<le> t) ts) = {}"
    by auto
  have cat: "filter (\<lambda>t. t < date) ts @ filter (\<lambda>t. date \<le> t) ts = ts"
    by (rule sorted_split [OF so])
  have cnt: "length (filter (\<lambda>t. t < date) ts) + length (filter (\<lambda>t. date \<le> t) ts) = length ts"
    using arg_cong [OF cat, of length] by simp
  show ?thesis
    by (rule exI [of _ train], rule exI [of _ held])
       (intro conjI e h tt th ft fh ft2 fh2 dj cnt cat)
qed

text \<open>
  The scenario of the spec: four hourly timestamps, the series \<open>[10, 20, 30, 40]\<close> and
  the cutoff at the third timestamp.
\<close>

theorem split_partition_witness:
  "\<exists>train held.
     extract_train_dataset 
      \<lparr>timestamps = Some [0, 3600000000, 7200000000, 10800000000],
       features = [(''OT'', [10, 20, 30, 40])]\<rparr> 7200000000 = Inr train \<and>
     held_out_view 
      \<lparr>timestamps = Some [0, 3600000000, 7200000000, 10800000000],
       features = [(''OT'', [10, 20, 30, 40])]\<rparr> 7200000000 = Inr held \<and>
     timestamps train = Some [0, 3600000000] \<and>
     features train = [(''OT'', [10, 20])] \<and>
     timestamps held = Some [7200000000, 10800000000] \<and>
     features held = [(''OT'', [30, 40])]"
proof -
  have 1: "timestamps 
      \<lparr>timestamps = Some [0, 3600000000, 7200000000, 10800000000],
       features = [(''OT'', [10, 20, 30, 40])]\<rparr> = Some [0, 3600000000, 7200000000, 10800000000]"
    by simp
  have 2: "strictly_increasing [0, 3600000000, 7200000000, 10800000000]"
    by (simp add: strictly_increasing_def)
  have 3: "aligned 
      \<lparr>timestamps = Some [0, 3600000000, 7200000000, 10800000000],
       features = [(''OT'', [10, 20, 30, 40])]\<rparr>"
    by (simp add: aligned_def)
  have 4: "wf_dict (features 
      \<lparr>timestamps = Some [0, 3600000000, 7200000000, 10800000000],
       features = [(''OT'', [10, 20, 30, 40])]\<rparr>)"
    by (simp add: wf_dict_def keys_def)
  from split_partition [OF 1 2 3 4, of 7200000000] show ?thesis
    by simp blast
qed

section \<open>The conversion from the TimesFM forecast array\<close>


lemma timesfm_loop_setitems:
  "timesfm_loop prefix (zip ks rs) fs = setitems (zip (map ((@) prefix) ks) rs) fs"
proof -
  have "timesfm_loop prefix pairs fs = setitems (map (\<lambda>(name, p). (prefix @ name, p)) pairs) fs"
    for pairs
    by (induction pairs arbitrary: fs) (auto simp: timesfm_loop_def setitems_def)
  then show ?thesis by (simp add: zip_map1)
qed

lemma timesfm_features:
  "features (timesfm_predictions_to_timeseries e tr preds prefix fa) =
     setitems (zip (map ((@) prefix) (keys (features tr))) (rows preds))
       (case fa of None \<Rightarrow> [] | Some f \<Rightarrow> f)"
  by (simp add: timesfm_predictions_to_timeseries_def TimeSeries_init_def timesfm_loop_setitems)


lemma distinct_prefixed: "distinct ks \<Longrightarrow> distinct (map ((@) prefix) ks)"
  by (simp add: distinct_map inj_on_def)

lemma map_of_zip_take:
  assumes "distinct xs" and "i < length xs" and "i < length ys"
  shows "map_of (zip xs ys) (xs ! i) = Some (ys ! i)"
proof -
  let ?m = "min (length xs) (length ys)"
  have z: "zip xs ys = zip (take ?m xs) (take ?m ys)"
    by (simp add: take_zip [symmetric])
  have "map_of (zip (take ?m xs) (take ?m ys)) (take ?m xs ! i) = Some (take ?m ys ! i)"
    by (rule map_of_zip_nth) (use assms in auto)
  with z assms show ?thesis by simp
qed

lemma map_of_rev_distinct: "distinct (map fst kvs) \<Longrightarrow> map_of (rev kvs) = map_of kvs"
  by (rule map_of_inject_set [THEN iffD2]) (auto simp: rev_map [symmetric])

lemma distinct_fst_zip: "distinct xs \<Longrightarrow> distinct (map fst (zip xs ys))"
  by (simp add: map_fst_zip_take)

lemma setitems_zip_lookup:
  assumes "distinct xs" and "i < length xs" and "i < length ys"
  shows "map_of (setitems (zip xs ys) d) (xs ! i) = Some (ys ! i)"
proof -
  have "map_of (rev (zip xs ys)) (xs ! i) = Some (ys ! i)"
    using map_of_zip_take [OF assms] map_of_rev_distinct [OF distinct_fst_zip [OF assms(1)], of ys]
    by simp
  then show ?thesis by (simp add: map_of_setitems)
qed

lemma take_min_length: "take (min (length xs) n) xs = take n xs"
  by (simp add: min_def)

lemma setitems_zip_other:
  assumes "k \<notin> set (take (length ys) xs)"
  shows "map_of (setitems (zip xs ys) d) k = map_of d k"
proof -
  have "k \<notin> fst ` set (rev (zip xs ys))"
    using assms by (simp add: map_fst_zip_take take_min_length set_map [symmetric] del: set_map)
  then have "map_of (rev (zip xs ys)) k = None"
    by (simp add: map_of_eq_None_iff)
  then show ?thesis by (simp add: map_of_setitems map_add_def)
qed


lemma set_keys_setitems_zip:
  "set (keys (setitems (zip xs ys) d)) = set (keys d) \<union> set (take (length ys) xs)"
proof -
  have "fst ` set (zip xs ys) = set (take (length ys) xs)"
    by (simp add: map_fst_zip_take take_min_length set_map [symmetric] del: set_map)
  then show ?thesis by (simp add: set_keys_setitems)
qed

lemma take_map_prefix: "take n (map ((@) prefix) ks) = map ((@) prefix) (take n ks)"
  by (simp add: take_map)



text \<open>
  C8, as the code has it: a prefixed identifier that is already in the mapping passed in
  raises nothing. Its entry is overwritten with the forecast row, the entries under other
  identifiers are kept, and the result has one series per distinct identifier, fewer
  than the entries passed in plus the rows stored when some collide.
\<close>

theorem timesfm_collision_overwrites:
  assumes "wf_dict (features train_dataset)"
  shows "(\<forall>i. i < length (keys (features train_dataset)) \<and> i < length (rows preds) \<and>
              prefix @ keys (features train_dataset) ! i \<in> set (keys fs) \<longrightarrow>
            getitem (features (timesfm_predictions_to_timeseries end_of_train train_dataset preds prefix (Some fs)))
              (prefix @ keys (features train_dataset) ! i) = Some (rows preds ! i)) \<and>
         set (keys (features (timesfm_predictions_to_timeseries end_of_train train_dataset preds prefix (Some fs)))) =
           set (keys fs) \<union> (@) prefix ` set (take (length (rows preds)) (keys (features train_dataset))) \<and>
         (\<forall>k. k \<notin> (@) prefix ` set (take (length (rows preds)) (keys (features train_dataset))) \<longrightarrow>
            getitem (features (timesfm_predictions_to_timeseries end_of_train train_dataset preds prefix (Some fs))) k =
              getitem fs k) \<and>
         (wf_dict fs \<longrightarrow>
            wf_dict (features (timesfm_predictions_to_timeseries end_of_train train_dataset preds prefix (Some fs))) \<and>
            length (features (timesfm_predictions_to_timeseries end_of_train train_dataset preds prefix (Some fs))) =
              card (set (keys fs) \<union>
                    (@) prefix ` set (take (length (rows preds)) (keys (features train_dataset)))))"
proof -
  let ?ks = "keys (features train_dataset)"
  let ?pks = "map ((@) prefix) ?ks"
  let ?R = "timesfm_predictions_to_timeseries end_of_train train_dataset preds prefix (Some fs)"
  have f: "features ?R = setitems (zip ?pks (rows preds)) fs"
    by (simp add: timesfm_features)
  have d: "distinct ?pks"
    using assms by (simp add: wf_dict_def distinct_prefixed)
  have look: "getitem (features ?R) (prefix @ ?ks ! i) = Some (rows preds ! i)"
    if "i < length ?ks" "i < length (rows preds)" for i
  proof -
    have "i < length ?pks" using that by simp
    from setitems_zip_lookup [OF d this that(2)] that(1) show ?thesis
      by (simp add: getitem_def f)
  qed
  have ks: "set (keys (features ?R)) = set (keys fs) \<union> (@) prefix ` set (take (length (rows preds)) ?ks)"
    by (simp add: f set_keys_setitems_zip take_map_prefix)
  have other: "getitem (features ?R) k = getitem fs k"
    if "k \<notin> (@) prefix ` set (take (length (rows preds)) ?ks)" for k
  proof -
    from that have "k \<notin> set (take (length (rows preds)) ?pks)"
      by (simp add: take_map_prefix)
    from setitems_zip_other [OF this] show ?thesis
      by (simp add: getitem_def f)
  qed
  have wf: "wf_dict (features ?R) \<and>
      length (features ?R) = card (set (keys fs) \<union> (@) prefix ` set (take (length (rows preds)) ?ks))"
    if "wf_dict fs"
  proof -
    have w: "wf_dict (features ?R)"
      unfolding f by (rule wf_dict_setitems [OF that])
    have "length (features ?R) = length (keys (features ?R))"
      by (simp add: keys_def)
    also have "\<dots> = card (set (keys (features ?R)))"
      using w by (simp add: wf_dict_def distinct_card)
    finally show ?thesis using w ks by simp
  qed
  show ?thesis
    using look ks other wf by blast
qed

theorem timesfm_collision_overwrites_witness:
  "getitem (features (timesfm_predictions_to_timeseries 0 \<lparr>timestamps = Some [], features = [(''OT'', [])]\<rparr>
      \<lparr>ncols = 2, rows = [[1, 2]]\<rparr> ''m_'' (Some [(''m_OT'', [9, 9]), (''keep'', [7, 7])]))) ''m_OT'' = Some [1, 2] \<and>
   getitem (features (timesfm_predictions_to_timeseries 0 \<lparr>timestamps = Some [], features = [(''OT'', [])]\<rparr>
      \<lparr>ncols = 2, rows = [[1, 2]]\<rparr> ''m_'' (Some [(''m_OT'', [9, 9]), (''keep'', [7, 7])]))) ''keep'' = Some [7, 7] \<and>
   length (features (timesfm_predictions_to_timeseries 0 \<lparr>timestamps = Some [], features = [(''OT'', [])]\<rparr>
      \<lparr>ncols = 2, rows = [[1, 2]]\<rparr> ''m_'' (Some [(''m_OT'', [9, 9]), (''keep'', [7, 7])]))) = 2"
proof -
  have w: "wf_dict (features \<lparr>timestamps = Some [], features = [(''OT'', [])]\<rparr>)"
    by (simp add: wf_dict_def keys_def)
  from timesfm_collision_overwrites [OF w, of "\<lparr>ncols = 2, rows = [[1, 2]]\<rparr>" "''m_''"
      "[(''m_OT'', [9, 9]), (''keep'', [7, 7])]" 0]
  show ?thesis
    by (simp add: keys_def wf_dict_def getitem_def)
qed

text \<open>
  C8 as stated fails: the mapping passed in holds \<open>m_OT\<close>, the prefix \<open>m_\<close> and the
  identifier \<open>OT\<close> collide with it, and a container with the one series is returned.
\<close>

theorem timesfm_collision_counterexample:
  "timesfm_predictions_to_timeseries 0 \<lparr>timestamps = Some [], features = [(''OT'', [])]\<rparr>
      \<lparr>ncols = 2, rows = [[1, 2]]\<rparr> ''m_'' (Some [(''m_OT'', [9, 9])]) =
     \<lparr>timestamps = Some [0, 3600000000], features = [(''m_OT'', [1, 2])]\<rparr>"
  by (simp add: timesfm_predictions_to_timeseries_def timesfm_loop_def TimeSeries_init_def
      keys_def timedelta_hours_def numeral_2_eq_2)

section \<open>Which mapping object a container holds\<close>




lemma setitem_at_same: "r < length h \<Longrightarrow> setitem_at r k v h ! r = setitem (h ! r) k v"
  by (simp add: setitem_at_def)








text \<open>
  When the mapping passed in is that of \<^verbatim>\<open>train_dataset\<close> itself, an empty prefix
  overwrites the training series in place, and a prefix that makes a new identifier
  changes the size of the mapping under iteration, which raises.
\<close>

lemma timesfm_train_mapping_passed_in:
  "timesfm_predictions_to_timeseries_obj 0 \<lparr>obj_timestamps = Some [0], obj_features = 0\<rparr> \<lparr>ncols = 1, rows = [[5]]\<rparr> [] (Some 0) [[(''OT'', [1])]] =
     Inr (\<lparr>obj_timestamps = Some [0], obj_features = 0\<rparr>, [[(''OT'', [5])]]) \<and>
   timesfm_predictions_to_timeseries_obj 0 \<lparr>obj_timestamps = Some [0], obj_features = 0\<rparr> \<lparr>ncols = 1, rows = [[5]]\<rparr> ''m_'' (Some 0) [[(''OT'', [1])]] =
     Inl RuntimeError"
  by (simp add: timesfm_predictions_to_timeseries_obj_def keys_def setitem_at_def
      timedelta_hours_def)

section \<open>The constructor\<close>

text \<open>
  C1, as the code has it: construction never fails. For every pair of arguments it
  returns the container holding exactly these timestamps and these series, and the
  container satisfies the docstring's invariant exactly when the arguments do. (Two
  series cannot share an identifier in a mapping, so no such input exists.)
\<close>

theorem TimeSeries_init_total:
  "timestamps (TimeSeries_init ts fs) = ts \<and>
   features (TimeSeries_init ts fs) = fs \<and>
   (aligned (TimeSeries_init ts fs) \<longleftrightarrow>
      (\<exists>t. ts = Some t \<and> list_all (\<lambda>(name, feature). length feature = length t) fs))"
  by (cases ts) (simp_all add: TimeSeries_init_def aligned_def)

text \<open>
  C1 as stated fails on the two scenarios of the spec: four timestamps with a series of
  three values, and the timestamps \<open>t0, t0, t0 + 1h\<close>, are both accepted.
\<close>

theorem TimeSeries_init_counterexample:
  "TimeSeries_init (Some [0, 3600000000, 7200000000, 10800000000]) [(''OT'', [10, 20, 30])] =
     \<lparr>timestamps = Some [0, 3600000000, 7200000000, 10800000000],
      features = [(''OT'', [10, 20, 30])]\<rparr> \<and>
   \<not> aligned (TimeSeries_init (Some [0, 3600000000, 7200000000, 10800000000])
                [(''OT'', [10, 20, 30])]) \<and>
   TimeSeries_init (Some [0, 0, 3600000000]) [(''OT'', [10, 20, 30])] =
     \<lparr>timestamps = Some [0, 0, 3600000000], features = [(''OT'', [10, 20, 30])]\<rparr> \<and>
   \<not> strictly_increasing [0, 0, 3600000000]"
  by (simp add: TimeSeries_init_def aligned_def strictly_increasing_def)

section \<open>Properties of the error metric\<close>








lemma rmse_error_iff:
  "rmse a b = Inl e \<longleftrightarrow>
     e = ValueError \<and> length a \<noteq> length b \<and> length a \<noteq> 1 \<and> length b \<noteq> 1"
  by (auto simp: rmse_def np_sub_def split: sum.splits if_splits)

text \<open>
  C3, as the code has it: the subtraction raises \<^verbatim>\<open>ValueError\<close> (the spec's
  \<^verbatim>\<open>LengthMismatchError\<close>) for two sequences of unequal length neither of which has
  length one, so in particular for lengths 3 and 4; for equal lengths, and whenever one
  of the two has length one, a number is returned.
\<close>

theorem rmse_length_mismatch:
  "(length a \<noteq> length b \<and> length a \<noteq> 1 \<and> length b \<noteq> 1 \<longrightarrow> rmse a b = Inl ValueError) \<and>
   (length a = 3 \<and> length b = 4 \<longrightarrow> rmse a b = Inl ValueError) \<and>
   (length a = length b \<or> length a = 1 \<or> length b = 1 \<longrightarrow> (\<exists>v. rmse a b = Inr v))"
proof (intro conjI impI)
  assume "length a \<noteq> length b \<and> length a \<noteq> 1 \<and> length b \<noteq> 1"
  then show "rmse a b = Inl ValueError"
    by (simp add: rmse_error_iff)
next
  assume "length a = 3 \<and> length b = 4"
  then show "rmse a b = Inl ValueError"
    by (simp add: rmse_error_iff)
next
  assume h: "length a = length b \<or> length a = 1 \<or> length b = 1"
  show "\<exists>v. rmse a b = Inr v"
  proof (cases "rmse a b")
    case (Inl e)
    with h show ?thesis by (auto simp: rmse_error_iff)
  next
    case (Inr v)
    then show ?thesis by simp
  qed
qed

theorem rmse_length_mismatch_witness:
  "rmse [1, 2, 3] [1, 2, 3, 4] = Inl ValueError \<and> (\<exists>v. rmse [5, 5, 5] [4, 6, 5] = Inr v)"
  using rmse_length_mismatch [of "[1, 2, 3]" "[1, 2, 3, 4]"]
        rmse_length_mismatch [of "[5, 5, 5]" "[4, 6, 5]"]
  by simp

text \<open>
  C3 as stated fails: the sequences \<open>[1]\<close> and \<open>[1, 2, 3, 4]\<close> have unequal lengths, the
  first is broadcast and a number is returned.
\<close>

theorem rmse_broadcast_counterexample:
  "length [1::real] \<noteq> length [1, 2, 3, 4::real] \<and>
   rmse [1] [1, 2, 3, 4] = Inr (Num (sqrt (7 / 2)))"
  by (simp add: rmse_def np_sub_def np_mean_def np_square_def)




end
